theory Spec2Isabelle
  imports Complex_Main "HOL-Library.Sublist"
begin

section \<open>Restaurant search: data model\<close>

text \<open>
  The exceptions that the modelled functions raise. \<open>HTTPError\<close> is httpx's,
  \<open>GoogleApiException\<close> the repository's own, \<open>InvalidRequestError\<close> and
  \<open>IntegrityError\<close> are SQLAlchemy's, the others are Python's built-in ones.
\<close>

datatype error =
    TypeError
  | ValueError
  | IndexError
  | AttributeError
  | HTTPError
  | GoogleApiException string
  | InvalidRequestError string
  | IntegrityError

text \<open>
  A candidate (\<open>schemes.scheme_rest.Restaurant\<close>). The class itself is not among the
  sources; the record holds the fields that the functions below read or write, and \<open>name\<close>
  as a field that none of them touches. Ratings are optional (\<open>None\<close> when absent) and
  integers, as \<open>filter_rating\<close> and \<open>select_restaurant\<close> annotate them.
  \<open>adr\<close> stands for \<open>geometry.location.adr\<close>.
\<close>

record restaurant =
  place_id :: string
  name :: string
  rating :: "int option"
  own_rating :: "int option"
  homepage :: "string option"
  maps_url :: "string option"
  phone_number :: "string option"
  adr :: "string option"

text \<open>A candidate as a search result carries it before any detail lookup or enrichment.\<close>

definition candidate :: "string \<Rightarrow> int option \<Rightarrow> restaurant" where
  "candidate pid ext =
     \<lparr>place_id = pid, name = pid, rating = ext, own_rating = None, homepage = None,
      maps_url = None, phone_number = None, adr = None\<rparr>"

section \<open>Filter stage (services/service_res.py)\<close>

text \<open>
  \<^verbatim>\<open>
  def filter_rating(rests, rating):
      for res in rests:
          if res.rating < rating:
              rests.remove(res)
      return rests
  \<close>
  The \<open>for\<close> loop walks the list by position while the body removes from the same list:
  the iterator holds an index \<open>i\<close>, reads \<open>rests[i]\<close> while \<open>i < len(rests)\<close>, and
  moves on to \<open>i + 1\<close> whatever the body did. \<open>list.remove\<close> deletes the first element
  that is equal to its argument (\<open>remove1\<close>). Comparing \<open>None\<close> with an integer raises
  \<open>TypeError\<close>.
\<close>

function filter_rating_loop :: "nat \<Rightarrow> restaurant list \<Rightarrow> int \<Rightarrow> error + restaurant list" where
  "filter_rating_loop i rests r =
     (if i < length rests then
        (case rating (rests ! i) of
           None \<Rightarrow> Inl TypeError
         | Some x \<Rightarrow>
             if x < r then filter_rating_loop (Suc i) (remove1 (rests ! i) rests) r
             else filter_rating_loop (Suc i) rests r)
      else Inr rests)"
  by pat_completeness auto
termination
  by (relation "measure (\<lambda>(i, rests, r). length rests - i)") (auto simp: length_remove1)

declare filter_rating_loop.simps [simp del]

definition filter_rating :: "restaurant list \<Rightarrow> int \<Rightarrow> error + restaurant list" where
  "filter_rating rests r = filter_rating_loop 0 rests r"

section \<open>Place search client (infrastructure/gapi.py)\<close>

text \<open>
  One answer of the nearby search, as far as the client reads it: the parsed \<open>results\<close>
  and the \<open>next_page_token\<close>, absent on the last page. The service is a function from the
  page token of the request to the outcome of \<open>httpx.get\<close>, \<open>raise_for_status\<close> and
  \<open>json\<close> together: a page, or the exception.
\<close>

record page =
  results :: "restaurant list"
  next_page_token :: "string option"

text \<open>
  \<open>nearby_search\<close> calls itself for the next page as long as the answer holds a token
  that is not empty. Nothing bounds the number of pages, so the function takes fuel, one
  unit for each request, and returns \<open>None\<close> when it runs out.
\<close>

fun nearby_search ::
    "nat \<Rightarrow> (string option \<Rightarrow> error + page) \<Rightarrow> string option \<Rightarrow> (error + restaurant list) option" where
  "nearby_search 0 service token = None"
| "nearby_search (Suc fuel) service token =
     (case service token of
        Inl e \<Rightarrow> Some (Inl e)
      | Inr resp_obj \<Rightarrow>
          if next_page_token resp_obj \<noteq> None \<and> next_page_token resp_obj \<noteq> Some [] then
            (case nearby_search fuel service (next_page_token resp_obj) of
               None \<Rightarrow> None
             | Some (Inl e) \<Rightarrow> Some (Inl e)
             | Some (Inr following) \<Rightarrow> Some (Inr (results resp_obj @ following)))
          else Some (Inr (results resp_obj)))"

text \<open>The fields that \<open>place_details\<close> reads from the \<open>result\<close> of a details answer.\<close>

record details =
  website :: "string option"
  url :: "string option"
  international_phone_number :: "string option"
  formatted_address :: "string option"

fun place_details :: "(string \<Rightarrow> error + details) \<Rightarrow> restaurant list \<Rightarrow> error + restaurant list" where
  "place_details lookup [] = Inr []"
| "place_details lookup (res # restaurants) =
     (case lookup (place_id res) of
        Inl e \<Rightarrow> Inl e
      | Inr resp_obj \<Rightarrow>
          (case place_details lookup restaurants of
             Inl e \<Rightarrow> Inl e
           | Inr extended_restaurants \<Rightarrow>
               Inr (res\<lparr>homepage := website resp_obj,
                        maps_url := url resp_obj,
                        phone_number := international_phone_number resp_obj,
                        adr := formatted_address resp_obj\<rparr>
                    # extended_restaurants)))"

text \<open>
  \<open>search_restaurant\<close> turns an \<open>httpx.HTTPError\<close> of either phase into a
  \<open>GoogleApiException\<close>. Its body ends after the assignment of the detailed list, with no
  \<open>return\<close> statement: the value of a successful call is Python's \<open>None\<close>, here
  \<open>Inr None\<close>.
\<close>

definition reraise :: "error \<Rightarrow> error" where
  "reraise e = (if e = HTTPError then GoogleApiException ''Can't communicate with the Google API'' else e)"

definition search_restaurant ::
    "nat \<Rightarrow> (string option \<Rightarrow> error + page) \<Rightarrow> (string \<Rightarrow> error + details)
      \<Rightarrow> (error + restaurant list option) option" where
  "search_restaurant fuel service lookup =
     (case nearby_search fuel service None of
        None \<Rightarrow> None
      | Some (Inl e) \<Rightarrow> Some (Inl (reraise e))
      | Some (Inr restaurants) \<Rightarrow>
          (case place_details lookup restaurants of
             Inl e \<Rightarrow> Some (Inl (reraise e))
           | Inr extended \<Rightarrow> Some (Inr None)))"

section \<open>Rating store (db/crud/bewertung.py)\<close>

text \<open>
  A row of the table \<open>Bewertung\<close>, with the columns the functions read or write. The
  request schemes name a user by \<open>person.email\<close> and a restaurant by
  \<open>restaurant.place_id\<close>, the only fields of them that are used; the records below hold
  these two strings.
\<close>

record bewertung =
  bewertung_person_email :: string
  bewertung_place_id :: string
  kommentar :: "string option"
  bewertung_rating :: "int option"
  zeitstempel :: nat

record rest_bewertung_create =
  person :: string
  restaurant :: string
  comment :: "string option"
  assessed_rating :: "int option"

record rest_bewertung_return =
  return_comment :: "string option"
  return_rating :: "int option"
  return_timestamp :: nat

text \<open>
  Modelled from the spec: the table declarations of persons and ratings (\<open>db.base\<close>) are
  not among the sources. The store holds the persons by e-mail address, the restaurants by
  place identifier (the primary key that db/models/restaurant.py declares) and the rating
  rows in insertion order. As the spec describes it, no storage-level constraint makes the
  pair (user, restaurant) of a rating unique. \<open>clock\<close> is the time the store stamps on a
  new row.
\<close>

record db =
  person_table :: "string list"
  restaurant_table :: "string list"
  bewertung_table :: "bewertung list"
  clock :: nat

text \<open>
  Modelled from the spec: \<open>db.crud.user.get_user_by_mail\<close> and
  \<open>db.crud.restaurant.get_restaurant_by_id\<close> are not among the sources; each is the
  exact-match lookup of a row by its key, \<open>None\<close> when there is none.
\<close>

definition get_user_by_mail :: "db \<Rightarrow> string \<Rightarrow> string option" where
  "get_user_by_mail d mail = List.find (\<lambda>p. p = mail) (person_table d)"

definition get_restaurant_by_id :: "db \<Rightarrow> string \<Rightarrow> string option" where
  "get_restaurant_by_id d pid = List.find (\<lambda>r. r = pid) (restaurant_table d)"

text \<open>
  Modelled from the spec: \<open>db.crud.restaurant.create_restaurant\<close> is not among the
  sources; it persists the restaurant, and the store rejects a second row with the same
  primary key.
\<close>

definition create_restaurant :: "db \<Rightarrow> restaurant \<Rightarrow> db \<times> (error + string)" where
  "create_restaurant d rest =
     (if place_id rest \<in> set (restaurant_table d) then (d, Inl IntegrityError)
      else (d\<lparr>restaurant_table := restaurant_table d @ [place_id rest]\<rparr>, Inr (place_id rest)))"

text \<open>
  \<open>get_bewertung_from_user_to_rest\<close>: the rating rows joined with their person and their
  restaurant, filtered by e-mail address and place identifier; \<open>first()\<close> gives the first
  such row or \<open>None\<close>.
\<close>

definition get_bewertung_from_user_to_rest :: "db \<Rightarrow> string \<Rightarrow> string \<Rightarrow> bewertung option" where
  "get_bewertung_from_user_to_rest d user_email rest_place_id =
     List.find
       (\<lambda>b. bewertung_person_email b \<in> set (person_table d)
            \<and> bewertung_place_id b \<in> set (restaurant_table d)
            \<and> bewertung_person_email b = user_email
            \<and> bewertung_place_id b = rest_place_id)
       (bewertung_table d)"

text \<open>
  \<open>create_bewertung\<close>: the two existence checks, then \<open>db.add\<close>, \<open>db.commit\<close> and
  \<open>db.refresh\<close>. The function returns the store and either the exception or the new row.
\<close>

definition create_bewertung :: "db \<Rightarrow> rest_bewertung_create \<Rightarrow> db \<times> (error + bewertung)" where
  "create_bewertung d assessment =
     (if get_user_by_mail d (person assessment) = None
        then (d, Inl (InvalidRequestError ''User does not exist''))
      else if get_restaurant_by_id d (restaurant assessment) = None
        then (d, Inl (InvalidRequestError ''Restaurant does not exist''))
      else
        (let db_assessment =
               \<lparr>bewertung_person_email = person assessment,
                bewertung_place_id = restaurant assessment,
                kommentar = comment assessment,
                bewertung_rating = assessed_rating assessment,
                zeitstempel = clock d\<rparr>
         in (d\<lparr>bewertung_table := bewertung_table d @ [db_assessment]\<rparr>, Inr db_assessment)))"

text \<open>
  \<open>update_bewertung\<close>: the bulk update of every row whose e-mail address and place
  identifier are the old assessment's, then the lookup of the new assessment's pair.
\<close>

definition update_bewertung ::
    "db \<Rightarrow> rest_bewertung_create \<Rightarrow> rest_bewertung_create \<Rightarrow> db \<times> bewertung option" where
  "update_bewertung d old_bewertung new_bewertung =
     (let d' = d\<lparr>bewertung_table :=
                  map (\<lambda>b. if bewertung_person_email b = person old_bewertung
                               \<and> bewertung_place_id b = restaurant old_bewertung
                            then b\<lparr>kommentar := comment new_bewertung,
                                   bewertung_rating := assessed_rating new_bewertung\<rparr>
                            else b)
                      (bewertung_table d)\<rparr>
      in (d', get_bewertung_from_user_to_rest d' (person new_bewertung) (restaurant new_bewertung)))"

text \<open>The number of rows that the update's filter matches.\<close>

definition rows_matching :: "db \<Rightarrow> rest_bewertung_create \<Rightarrow> nat" where
  "rows_matching d a =
     length (filter (\<lambda>b. bewertung_person_email b = person a \<and> bewertung_place_id b = restaurant a)
               (bewertung_table d))"

section \<open>Services (services/service_res.py)\<close>

text \<open>
  \<open>add_assessment\<close> re-raises what \<open>create_bewertung\<close> raises; \<open>update_assessment\<close>
  reads three attributes of what \<open>update_bewertung\<close> returns, which raises
  \<open>AttributeError\<close> on \<open>None\<close>.
\<close>

definition add_assessment :: "db \<Rightarrow> rest_bewertung_create \<Rightarrow> db \<times> (error + rest_bewertung_return)" where
  "add_assessment d assessment =
     (case create_bewertung d assessment of
        (d', Inl e) \<Rightarrow> (d', Inl e)
      | (d', Inr created_assessment) \<Rightarrow>
          (d', Inr \<lparr>return_comment = kommentar created_assessment,
                    return_rating = bewertung_rating created_assessment,
                    return_timestamp = zeitstempel created_assessment\<rparr>))"

definition update_assessment ::
    "db \<Rightarrow> rest_bewertung_create \<Rightarrow> rest_bewertung_create \<Rightarrow> db \<times> (error + rest_bewertung_return)" where
  "update_assessment d old_assessment new_assessment =
     (case update_bewertung d old_assessment new_assessment of
        (d', None) \<Rightarrow> (d', Inl AttributeError)
      | (d', Some updated_assessment) \<Rightarrow>
          (d', Inr \<lparr>return_comment = kommentar updated_assessment,
                    return_rating = bewertung_rating updated_assessment,
                    return_timestamp = zeitstempel updated_assessment\<rparr>))"

text \<open>
  \<open>fill_user_rating\<close>: each candidate gets the rating of the user's assessment of it, when
  there is one.
\<close>

fun fill_user_rating :: "db \<Rightarrow> restaurant list \<Rightarrow> string \<Rightarrow> restaurant list" where
  "fill_user_rating d [] user = []"
| "fill_user_rating d (rest # rests) user =
     (case get_bewertung_from_user_to_rest d user (place_id rest) of
        None \<Rightarrow> rest
      | Some assessment \<Rightarrow> rest\<lparr>own_rating := bewertung_rating assessment\<rparr>)
     # fill_user_rating d rests user"

text \<open>The filter criteria; \<open>filter_rest_rating\<close> is the field \<open>rating\<close> of \<open>FilterRest\<close>.\<close>

record filter_rest =
  cuisine :: string
  radius :: nat
  filter_rest_rating :: int

definition apply_filter :: "restaurant list \<Rightarrow> filter_rest \<Rightarrow> error + restaurant list" where
  "apply_filter rests user_f = filter_rating rests (filter_rest_rating user_f)"

section \<open>Draw stage (services/service_res.py)\<close>

text \<open>
  \<^verbatim>\<open>
  weights = []
  for res in rests:
      if res.own_rating is None:
          res.own_rating = 0
      if res.rating is None:
          res.rating = 0
      weights.append(res.own_rating * 4 + res.rating * 2)
  \<close>
  The loop writes to the candidates it visits; the model returns the candidates as the
  loop leaves them together with the weights. After the two assignments both ratings are
  present, so \<open>the\<close> reads a \<open>Some\<close>.
\<close>

fun select_restaurant_loop :: "restaurant list \<Rightarrow> restaurant list \<times> int list" where
  "select_restaurant_loop [] = ([], [])"
| "select_restaurant_loop (res # rests) =
     (let res1 = (if own_rating res = None then res\<lparr>own_rating := Some 0\<rparr> else res);
          res2 = (if rating res1 = None then res1\<lparr>rating := Some 0\<rparr> else res1);
          w = the (own_rating res2) * 4 + the (rating res2) * 2;
          (rests', weights) = select_restaurant_loop rests
      in (res2 # rests', w # weights))"

text \<open>
  \<open>random.choices(population, weights=weights, k=1)[0]\<close> of Python's standard library
  (3.9 and later, which the annotation \<open>list[Restaurant]\<close> in infrastructure/gapi.py
  requires). The library accumulates the weights into running sums, rejects a total that is
  not positive, multiplies the total by a random number \<open>u\<close> from \<open>[0, 1)\<close> and looks
  the product up by bisection among the first \<open>n - 1\<close> running sums. The random number is
  a parameter of the model.
\<close>

fun accumulate_from :: "int \<Rightarrow> int list \<Rightarrow> int list" where
  "accumulate_from tot [] = []"
| "accumulate_from tot (w # ws) = (tot + w) # accumulate_from (tot + w) ws"

definition accumulate :: "int list \<Rightarrow> int list" where
  "accumulate ws = accumulate_from 0 ws"

function bisect_right :: "int list \<Rightarrow> real \<Rightarrow> nat \<Rightarrow> nat \<Rightarrow> error + nat" where
  "bisect_right a x lo hi =
     (if lo < hi then
        (let mid = (lo + hi) div 2 in
         if length a \<le> mid then Inl IndexError
         else if x < real_of_int (a ! mid) then bisect_right a x lo mid
         else bisect_right a x (mid + 1) hi)
      else Inr lo)"
  by pat_completeness auto
termination
  by (relation "measure (\<lambda>(a, x, lo, hi). hi - lo)") auto

declare bisect_right.simps [simp del]

definition choices :: "'a list \<Rightarrow> int list \<Rightarrow> real \<Rightarrow> error + 'a" where
  "choices population weights u =
     (let n = length population;
          cum_weights = accumulate weights
      in if length cum_weights \<noteq> n then Inl ValueError
         else if cum_weights = [] then Inl IndexError
         else
           (let tot = real_of_int (last cum_weights)
            in if tot \<le> 0 then Inl ValueError
               else
                 (case bisect_right cum_weights (u * tot) 0 (n - 1) of
                    Inl e \<Rightarrow> Inl e
                  | Inr i \<Rightarrow> if i < n then Inr (population ! i) else Inl IndexError)))"

text \<open>
  \<open>select_restaurant\<close> returns the candidates as its loop left them (the caller's list
  holds the same objects) and the outcome of the draw.
\<close>

definition select_restaurant ::
    "restaurant list \<Rightarrow> real \<Rightarrow> restaurant list \<times> (error + restaurant)" where
  "select_restaurant rests u =
     (let (rests', weights) = select_restaurant_loop rests
      in (rests', choices rests' weights u))"

text \<open>
  \<open>search_for_restaurant\<close>. The module \<open>tools.gapi\<close> that it calls with the filter is not
  among the sources, so the candidates that the search returned, \<open>google_rests\<close>, are a
  parameter, as is the random number \<open>u\<close> of the draw. An exception of a stage ends the
  function; the store is returned with it.
\<close>

definition search_for_restaurant ::
    "db \<Rightarrow> string \<Rightarrow> filter_rest \<Rightarrow> restaurant list \<Rightarrow> real \<Rightarrow> db \<times> (error + restaurant)" where
  "search_for_restaurant d user user_f google_rests u =
     (case apply_filter google_rests user_f of
        Inl e \<Rightarrow> (d, Inl e)
      | Inr filterd_rests \<Rightarrow>
          (let user_rests = fill_user_rating d filterd_rests user
           in case snd (select_restaurant user_rests u) of
                Inl e \<Rightarrow> (d, Inl e)
              | Inr chosen \<Rightarrow>
                  if get_restaurant_by_id d (place_id chosen) \<noteq> None then
                    (case create_restaurant d chosen of
                       (d1, Inl e) \<Rightarrow> (d1, Inl e)
                     | (d1, Inr _) \<Rightarrow>
                         (case add_assessment d1
                                 \<lparr>person = user, restaurant = place_id chosen,
                                  comment = None, assessed_rating = None\<rparr> of
                            (d2, Inl e) \<Rightarrow> (d2, Inl e)
                          | (d2, Inr _) \<Rightarrow> (d2, Inr chosen)))
                  else (d, Inr chosen)))"

section \<open>Example inputs\<close>

text \<open>
  Concrete stores, requests and services at which the theorems below evaluate the
  functions: a store with one person, a request of that person about the place \<open>A\<close>, a
  filter, a search service that answers with two pages and a details service.
\<close>

definition example_store :: "string list \<Rightarrow> bewertung list \<Rightarrow> db" where
  "example_store place_ids rows =
     \<lparr>person_table = [''u@example.org''], restaurant_table = place_ids,
      bewertung_table = rows, clock = 7\<rparr>"

definition example_assessment :: "string option \<Rightarrow> int option \<Rightarrow> rest_bewertung_create" where
  "example_assessment c r =
     \<lparr>person = ''u@example.org'', restaurant = ''A'', comment = c, assessed_rating = r\<rparr>"

definition example_filter :: "int \<Rightarrow> filter_rest" where
  "example_filter r = \<lparr>cuisine = ''German'', radius = 5000, filter_rest_rating = r\<rparr>"

definition two_pages :: "string option \<Rightarrow> error + page" where
  "two_pages token =
     (if token = None then
        Inr \<lparr>results = [candidate ''A'' (Some 5), candidate ''B'' (Some 3)],
             next_page_token = Some ''t1''\<rparr>
      else if token = Some ''t1'' then
        Inr \<lparr>results = [candidate ''C'' (Some 4)], next_page_token = None\<rparr>
      else Inl HTTPError)"

definition example_details :: "string \<Rightarrow> error + details" where
  "example_details pid =
     Inr \<lparr>website = Some (''https://example.org/'' @ pid), url = None,
          international_phone_number = None, formatted_address = Some ''Main Street 1''\<rparr>"

section \<open>Properties of the stages\<close>

subsection \<open>Filter and enrichment only remove candidates or attach the own rating\<close>

lemma subseq_remove1: "subseq (remove1 x xs) xs"
  by (induction xs) auto

lemma filter_rating_loop_subseq:
  "filter_rating_loop i rests r = Inr out \<Longrightarrow> subseq out rests"
proof (induction i rests r rule: filter_rating_loop.induct)
  case (1 i rests r)
  note unfold = filter_rating_loop.simps [of i rests r]
  show ?case
  proof (cases "i < length rests")
    case False
    with "1.prems" unfold show ?thesis by simp
  next
    case True
    show ?thesis
    proof (cases "rating (rests ! i)")
      case None
      with True "1.prems" unfold show ?thesis by simp
    next
      case (Some x)
      show ?thesis
      proof (cases "x < r")
        case below: True
        with True Some "1.prems" unfold
        have "filter_rating_loop (Suc i) (remove1 (rests ! i) rests) r = Inr out" by simp
        then have "subseq out (remove1 (rests ! i) rests)"
          by (rule "1.IH"(1) [OF True Some below])
        also have "subseq (remove1 (rests ! i) rests) rests" by (rule subseq_remove1)
        finally show ?thesis .
      next
        case above: False
        with True Some "1.prems" unfold
        have "filter_rating_loop (Suc i) rests r = Inr out" by simp
        then show ?thesis by (rule "1.IH"(2) [OF True Some above])
      qed
    qed
  qed
qed

lemma fill_user_rating_frame:
  "list_all2 (\<lambda>a b. \<exists>x. b = a\<lparr>own_rating := x\<rparr>) rests (fill_user_rating d rests user)"
proof (induction rests)
  case Nil
  show ?case by simp
next
  case (Cons rest rests)
  have "\<exists>x. (case get_bewertung_from_user_to_rest d user (place_id rest) of
        None \<Rightarrow> rest
      | Some assessment \<Rightarrow> rest\<lparr>own_rating := bewertung_rating assessment\<rparr>) = rest\<lparr>own_rating := x\<rparr>"
  proof (cases "get_bewertung_from_user_to_rest d user (place_id rest)")
    case None
    have "rest = rest\<lparr>own_rating := own_rating rest\<rparr>" by simp
    then have "\<exists>x. rest = rest\<lparr>own_rating := x\<rparr>" ..
    with None show ?thesis by simp
  next
    case (Some a)
    then show ?thesis by auto
  qed
  with Cons show ?case by simp
qed

subsection \<open>Running sums and bisection\<close>

lemma length_accumulate_from: "length (accumulate_from t ws) = length ws"
  by (induction ws arbitrary: t) auto

lemma last_accumulate_from: "ws \<noteq> [] \<Longrightarrow> last (accumulate_from t ws) = t + sum_list ws"
proof (induction ws arbitrary: t)
  case Nil
  then show ?case by simp
next
  case (Cons w ws)
  show ?case
  proof (cases ws)
    case Nil
    then show ?thesis by simp
  next
    case (Cons v vs)
    with Cons.IH [of "t + w"] show ?thesis by simp
  qed
qed

lemma nth_accumulate_from:
  "i < length ws \<Longrightarrow> accumulate_from t ws ! i = t + sum_list (take (Suc i) ws)"
proof (induction ws arbitrary: t i)
  case Nil
  then show ?case by simp
next
  case (Cons w ws)
  then show ?case by (cases i) auto
qed

lemma sorted_accumulate_from:
  "\<forall>w \<in> set ws. 0 \<le> w \<Longrightarrow>
     sorted (accumulate_from t ws) \<and> (\<forall>c \<in> set (accumulate_from t ws). t \<le> c)"
proof (induction ws arbitrary: t)
  case Nil
  then show ?case by simp
next
  case (Cons w ws)
  then have IH: "sorted (accumulate_from (t + w) ws)"
    "\<forall>c \<in> set (accumulate_from (t + w) ws). t + w \<le> c"
    by simp_all
  from Cons.prems have "0 \<le> w" by simp
  with IH show ?case by force
qed

lemma bisect_right_sorted:
  "sorted a \<Longrightarrow> lo \<le> hi \<Longrightarrow> hi \<le> length a \<Longrightarrow>
     \<exists>i. bisect_right a x lo hi = Inr i \<and> lo \<le> i \<and> i \<le> hi
       \<and> (\<forall>j. lo \<le> j \<and> j < i \<longrightarrow> real_of_int (a ! j) \<le> x)
       \<and> (\<forall>j. i \<le> j \<and> j < hi \<longrightarrow> x < real_of_int (a ! j))"
proof (induction a x lo hi rule: bisect_right.induct)
  case (1 a x lo hi)
  note unfold = bisect_right.simps [of a x lo hi]
  show ?case
  proof (cases "lo < hi")
    case False
    with "1.prems" have "lo = hi" by simp
    moreover from False unfold have "bisect_right a x lo hi = Inr lo" by simp
    ultimately show ?thesis by simp
  next
    case True
    define mid where "mid = (lo + hi) div 2"
    from True have mid: "lo \<le> mid" "mid < hi" by (simp_all add: mid_def)
    with "1.prems" have len: "\<not> length a \<le> mid" by simp
    show ?thesis
    proof (cases "x < real_of_int (a ! mid)")
      case less: True
      from mid "1.prems" have "lo \<le> mid" "mid \<le> length a" by simp_all
      from "1.IH"(1) [OF True mid_def len less "1.prems"(1) this]
      obtain i where i: "bisect_right a x lo mid = Inr i" "lo \<le> i" "i \<le> mid"
        "\<forall>j. lo \<le> j \<and> j < i \<longrightarrow> real_of_int (a ! j) \<le> x"
        "\<forall>j. i \<le> j \<and> j < mid \<longrightarrow> x < real_of_int (a ! j)" by blast
      have upper: "x < real_of_int (a ! j)" if "i \<le> j" "j < hi" for j
      proof (cases "j < mid")
        case True
        with i(5) that show ?thesis by simp
      next
        case False
        with that "1.prems" have "a ! mid \<le> a ! j"
          by (intro sorted_nth_mono) simp_all
        with less show ?thesis by linarith
      qed
      from True len less unfold have "bisect_right a x lo hi = Inr i"
        by (simp add: mid_def [symmetric] Let_def i(1))
      moreover from i(3) mid have "i \<le> hi" by simp
      ultimately show ?thesis using i(2,4) upper by blast
    next
      case geq: False
      from mid "1.prems" have "mid + 1 \<le> hi" "hi \<le> length a" by simp_all
      from "1.IH"(2) [OF True mid_def len geq "1.prems"(1) this]
      obtain i where i: "bisect_right a x (mid + 1) hi = Inr i" "mid + 1 \<le> i" "i \<le> hi"
        "\<forall>j. mid + 1 \<le> j \<and> j < i \<longrightarrow> real_of_int (a ! j) \<le> x"
        "\<forall>j. i \<le> j \<and> j < hi \<longrightarrow> x < real_of_int (a ! j)" by blast
      have lower: "real_of_int (a ! j) \<le> x" if "lo \<le> j" "j < i" for j
      proof (cases "mid + 1 \<le> j")
        case True
        with i(4) that show ?thesis by simp
      next
        case False
        with len "1.prems" have "a ! j \<le> a ! mid"
          by (intro sorted_nth_mono) simp_all
        with geq show ?thesis by linarith
      qed
      from True len geq unfold i(1) have "bisect_right a x lo hi = Inr i"
        by (simp add: mid_def [symmetric] Let_def)
      moreover from i(2) mid have "lo \<le> i" by simp
      ultimately show ?thesis using i(3,5) lower by blast
    qed
  qed
qed

lemma bisect_right_in_range:
  "lo \<le> hi \<Longrightarrow> hi \<le> length a \<Longrightarrow> \<exists>i. bisect_right a x lo hi = Inr i \<and> lo \<le> i \<and> i \<le> hi"
proof (induction a x lo hi rule: bisect_right.induct)
  case (1 a x lo hi)
  note unfold = bisect_right.simps [of a x lo hi]
  show ?case
  proof (cases "lo < hi")
    case False
    with "1.prems" have "lo = hi" by simp
    moreover from False unfold have "bisect_right a x lo hi = Inr lo" by simp
    ultimately show ?thesis by simp
  next
    case True
    define mid where "mid = (lo + hi) div 2"
    from True have mid: "lo \<le> mid" "mid < hi" by (simp_all add: mid_def)
    with "1.prems" have len: "\<not> length a \<le> mid" by simp
    show ?thesis
    proof (cases "x < real_of_int (a ! mid)")
      case less: True
      from mid "1.prems" have "lo \<le> mid" "mid \<le> length a" by simp_all
      from "1.IH"(1) [OF True mid_def len less this]
      obtain i where i: "bisect_right a x lo mid = Inr i" "lo \<le> i" "i \<le> mid" by blast
      from True len less unfold have "bisect_right a x lo hi = Inr i"
        by (simp add: mid_def [symmetric] Let_def i(1))
      moreover from i(3) mid have "i \<le> hi" by simp
      ultimately show ?thesis using i(2) by blast
    next
      case geq: False
      from mid "1.prems" have "mid + 1 \<le> hi" "hi \<le> length a" by simp_all
      from "1.IH"(2) [OF True mid_def len geq this]
      obtain i where i: "bisect_right a x (mid + 1) hi = Inr i" "mid + 1 \<le> i" "i \<le> hi" by blast
      from True len geq unfold i(1) have "bisect_right a x lo hi = Inr i"
        by (simp add: mid_def [symmetric] Let_def)
      moreover from i(2) mid have "lo \<le> i" by simp
      ultimately show ?thesis using i(3) by blast
    qed
  qed
qed

subsection \<open>The weighted choice\<close>

lemma length_accumulate: "length (accumulate ws) = length ws"
  by (simp add: accumulate_def length_accumulate_from)

lemma last_accumulate: "ws \<noteq> [] \<Longrightarrow> last (accumulate ws) = sum_list ws"
  by (simp add: accumulate_def last_accumulate_from)

lemma choices_member:
  assumes "length weights = length population" "population \<noteq> []" "0 < sum_list weights"
  shows "\<exists>i<length population. choices population weights u = Inr (population ! i)"
proof -
  let ?cum = "accumulate weights"
  let ?n = "length population"
  from assms have ws: "weights \<noteq> []" by auto
  from assms have len: "length ?cum = ?n" by (simp add: length_accumulate)
  with assms have nonempty: "?cum \<noteq> []" by auto
  from ws assms have tot: "\<not> real_of_int (last ?cum) \<le> 0" by (simp add: last_accumulate)
  from len have "0 \<le> ?n - 1" "?n - 1 \<le> length ?cum" by simp_all
  from bisect_right_in_range [OF this, of "u * real_of_int (last ?cum)"]
  obtain i where i: "bisect_right ?cum (u * real_of_int (last ?cum)) 0 (?n - 1) = Inr i" "i \<le> ?n - 1"
    by blast
  from assms(2) have "0 < ?n" by simp
  with i(2) have "i < ?n" by arith
  with len nonempty tot i(1) have "choices population weights u = Inr (population ! i)"
    by (simp add: choices_def Let_def)
  with \<open>i < ?n\<close> show ?thesis by blast
qed

lemma sum_list_all_zero: "\<forall>w \<in> set ws. w = (0::int) \<Longrightarrow> sum_list ws = 0"
  by (induction ws) simp_all

lemma choices_not_positive:
  assumes "length weights = length population" "population \<noteq> []" "sum_list weights \<le> 0"
  shows "choices population weights u = Inl ValueError"
proof -
  from assms have ws: "weights \<noteq> []" by auto
  from assms have len: "length (accumulate weights) = length population"
    by (simp add: length_accumulate)
  with assms have nonempty: "accumulate weights \<noteq> []" by auto
  from ws assms have "real_of_int (last (accumulate weights)) \<le> 0" by (simp add: last_accumulate)
  with len nonempty show ?thesis by (simp add: choices_def Let_def)
qed

lemma choices_positive_weight:
  assumes len: "length weights = length population"
    and nonneg: "\<forall>w \<in> set weights. 0 \<le> w"
    and u: "0 \<le> u" "u < 1"
    and res: "choices population weights u = Inr r"
  shows "\<exists>i<length population. r = population ! i \<and> 0 < weights ! i"
proof -
  let ?cum = "accumulate weights"
  let ?n = "length population"
  let ?tot = "real_of_int (last ?cum)"
  from len have clen: "length ?cum = ?n" by (simp add: length_accumulate)
  from res clen have nonempty: "?cum \<noteq> []"
    by (auto simp: choices_def Let_def split: if_splits)
  from res clen nonempty have tot: "0 < ?tot"
    by (auto simp: choices_def Let_def split: if_splits)
  from nonneg have sorted: "sorted ?cum"
    using sorted_accumulate_from [of weights 0] by (simp add: accumulate_def)
  from clen have "0 \<le> ?n - 1" "?n - 1 \<le> length ?cum" by simp_all
  from bisect_right_sorted [OF sorted this, of "u * ?tot"]
  obtain i where i: "bisect_right ?cum (u * ?tot) 0 (?n - 1) = Inr i" "i \<le> ?n - 1"
    "\<forall>j. 0 \<le> j \<and> j < i \<longrightarrow> real_of_int (?cum ! j) \<le> u * ?tot"
    "\<forall>j. i \<le> j \<and> j < ?n - 1 \<longrightarrow> u * ?tot < real_of_int (?cum ! j)"
    by blast
  from nonempty clen have "0 < ?n" by auto
  with i(2) have iless: "i < ?n" by arith
  with res clen nonempty tot i(1) have r: "r = population ! i"
    by (simp add: choices_def Let_def)
  from u tot have x: "0 \<le> u * ?tot" "u * ?tot < ?tot" by simp_all
  have above: "u * ?tot < real_of_int (?cum ! i)"
  proof (cases "i < ?n - 1")
    case True
    with i(4) show ?thesis by simp
  next
    case False
    with i(2) have "i = length ?cum - 1" by (simp add: clen)
    with nonempty have "?cum ! i = last ?cum" by (simp add: last_conv_nth)
    with x(2) show ?thesis by simp
  qed
  from iless len have nth: "?cum ! i = sum_list (take (Suc i) weights)"
    by (simp add: accumulate_def nth_accumulate_from)
  from iless len have split: "sum_list (take (Suc i) weights) = sum_list (take i weights) + weights ! i"
    by (simp add: take_Suc_conv_app_nth)
  have "0 < weights ! i"
  proof (cases i)
    case 0
    with nth split above x(1) have "0 < real_of_int (weights ! i)" by simp
    then show ?thesis by simp
  next
    case (Suc k)
    with iless len have "?cum ! k = sum_list (take (Suc k) weights)"
      by (simp add: accumulate_def nth_accumulate_from)
    moreover from Suc i(3) have "real_of_int (?cum ! k) \<le> u * ?tot" by simp
    ultimately have "real_of_int (sum_list (take i weights)) < real_of_int (?cum ! i)"
      using above Suc by simp
    with nth split show ?thesis by simp
  qed
  with r iless show ?thesis by blast
qed

lemma select_restaurant_loop_weights:
  "snd (select_restaurant_loop rests) =
     map (\<lambda>res. (case own_rating res of None \<Rightarrow> 0 | Some a \<Rightarrow> a) * 4
               + (case rating res of None \<Rightarrow> 0 | Some b \<Rightarrow> b) * 2) rests"
  by (induction rests) (auto simp: Let_def split: prod.splits option.splits)

lemma select_restaurant_loop_rests:
  "fst (select_restaurant_loop rests) =
     map (\<lambda>res. res\<lparr>own_rating := Some (case own_rating res of None \<Rightarrow> 0 | Some a \<Rightarrow> a),
                     rating := Some (case rating res of None \<Rightarrow> 0 | Some b \<Rightarrow> b)\<rparr>) rests"
  by (induction rests) (auto simp: Let_def split: prod.splits option.splits)

lemma select_restaurant_unfold:
  "select_restaurant rests u =
     (fst (select_restaurant_loop rests),
      choices (fst (select_restaurant_loop rests)) (snd (select_restaurant_loop rests)) u)"
  by (simp add: select_restaurant_def split: prod.splits)

lemma select_restaurant_loop_lengths:
  "length (fst (select_restaurant_loop rests)) = length rests"
  "length (snd (select_restaurant_loop rests)) = length rests"
  by (simp_all add: select_restaurant_loop_rests select_restaurant_loop_weights)

subsection \<open>The rating store\<close>


lemma update_bewertung_no_match:
  assumes "rows_matching d old_bewertung = 0"
  shows "fst (update_bewertung d old_bewertung new_bewertung) = d"
proof -
  from assms have "\<forall>b \<in> set (bewertung_table d).
      \<not> (bewertung_person_email b = person old_bewertung
         \<and> bewertung_place_id b = restaurant old_bewertung)"
    by (auto simp: rows_matching_def filter_empty_conv)
  then have "map (\<lambda>b. if bewertung_person_email b = person old_bewertung
                            \<and> bewertung_place_id b = restaurant old_bewertung
                         then b\<lparr>kommentar := comment new_bewertung,
                                bewertung_rating := assessed_rating new_bewertung\<rparr>
                         else b) (bewertung_table d) = bewertung_table d"
    by (intro map_idI) auto
  then show ?thesis by (simp add: update_bewertung_def Let_def)
qed

section \<open>Claims\<close>

text \<open>
  C1. The filter stage is claimed to return exactly the candidates whose external rating
  (0 when absent) is at least the threshold. On two candidates rated 1 and 2 and the
  threshold 3 the loop removes the first, thereby skips the second, and returns it.
\<close>

theorem filter_rating_skips_after_removal:
  "filter_rating [candidate ''A'' (Some 1), candidate ''B'' (Some 2)] 3
     = Inr [candidate ''B'' (Some 2)]"
  by (simp add: filter_rating_def candidate_def filter_rating_loop.simps)

text \<open>A candidate without external rating that the loop does compare raises \<open>TypeError\<close>.\<close>

lemma filter_rating_absent_rating:
  "filter_rating [candidate ''A'' None] 1 = Inl TypeError"
  by (simp add: filter_rating_def candidate_def filter_rating_loop.simps)

text \<open>
  C2. \<open>search_restaurant\<close> is claimed to return the concatenation of all pages, each
  candidate enriched with its details. For a service with two pages \<open>nearby_search\<close>
  does collect both pages and \<open>place_details\<close> does enrich them, but
  \<open>search_restaurant\<close> itself returns \<open>None\<close>: it has no \<open>return\<close> statement.
\<close>

theorem search_restaurant_returns_none:
  "nearby_search 2 two_pages None
     = Some (Inr [candidate ''A'' (Some 5), candidate ''B'' (Some 3), candidate ''C'' (Some 4)])
   \<and> map homepage
         (projr (place_details example_details
            [candidate ''A'' (Some 5), candidate ''B'' (Some 3), candidate ''C'' (Some 4)]))
     = [Some ''https://example.org/A'', Some ''https://example.org/B'', Some ''https://example.org/C'']
   \<and> search_restaurant 2 two_pages example_details = Some (Inr None)"
  by (simp add: search_restaurant_def two_pages_def example_details_def numeral_2_eq_2
      candidate_def)

lemma search_restaurant_never_a_list:
  "search_restaurant fuel service lookup \<noteq> Some (Inr (Some restaurants))"
  by (simp add: search_restaurant_def split: option.splits sum.splits)

text \<open>
  C3. The draw is claimed to succeed on every non-empty list, with candidates of weight 0
  still eligible and a uniform choice when all weights are 0. A single candidate without
  any rating has weight 0, and the draw raises \<open>ValueError\<close>.
\<close>

theorem select_restaurant_all_zero_raises:
  "snd (select_restaurant [candidate ''A'' None] (1 / 2)) = Inl ValueError"
  by (simp add: select_restaurant_def choices_def accumulate_def candidate_def)

text \<open>
  C3, as the code has it. When the weights of a non-empty list sum to more than 0, the
  draw returns one candidate of the list (as the loop left it). When no weight is negative
  and the random number lies in \<open>[0, 1)\<close>, the candidate drawn has a positive weight:
  a candidate of weight 0 is in the population but is never drawn. When every weight is 0,
  the draw raises \<open>ValueError\<close>; there is no uniform fallback.
\<close>

theorem select_restaurant_draw:
  "(rests \<noteq> [] \<and> 0 < sum_list (snd (select_restaurant_loop rests))
      \<longrightarrow> (\<exists>i<length rests.
             snd (select_restaurant rests u) = Inr (fst (select_restaurant rests u) ! i)))
   \<and> ((\<forall>w \<in> set (snd (select_restaurant_loop rests)). 0 \<le> w) \<and> 0 \<le> u \<and> u < 1
        \<and> snd (select_restaurant rests u) = Inr r
      \<longrightarrow> (\<exists>i<length rests.
             r = fst (select_restaurant rests u) ! i
             \<and> 0 < snd (select_restaurant_loop rests) ! i))
   \<and> (rests \<noteq> [] \<and> (\<forall>w \<in> set (snd (select_restaurant_loop rests)). w = 0)
      \<longrightarrow> snd (select_restaurant rests u) = Inl ValueError)"
proof (intro conjI impI)
  let ?R = "fst (select_restaurant_loop rests)"
  let ?W = "snd (select_restaurant_loop rests)"
  have len: "length ?W = length ?R" "length ?R = length rests"
    by (simp_all add: select_restaurant_loop_lengths)
  {
    assume "rests \<noteq> [] \<and> 0 < sum_list ?W"
    with len have "?R \<noteq> []" "0 < sum_list ?W" by auto
    from choices_member [OF len(1) this, of u] len(2)
    show "\<exists>i<length rests.
             snd (select_restaurant rests u) = Inr (fst (select_restaurant rests u) ! i)"
      by (simp add: select_restaurant_unfold)
  }
  {
    assume a: "(\<forall>w \<in> set ?W. 0 \<le> w) \<and> 0 \<le> u \<and> u < 1 \<and> snd (select_restaurant rests u) = Inr r"
    then have "choices ?R ?W u = Inr r" by (simp add: select_restaurant_unfold)
    with a choices_positive_weight [OF len(1), of u r] len(2)
    show "\<exists>i<length rests. r = fst (select_restaurant rests u) ! i \<and> 0 < ?W ! i"
      by (simp add: select_restaurant_unfold)
  }
  {
    assume a: "rests \<noteq> [] \<and> (\<forall>w \<in> set ?W. w = 0)"
    with len have "?R \<noteq> []" by auto
    moreover from a have "sum_list ?W = 0" by (simp add: sum_list_all_zero)
    ultimately show "snd (select_restaurant rests u) = Inl ValueError"
      using choices_not_positive [OF len(1), of u] by (simp add: select_restaurant_unfold)
  }
qed

theorem select_restaurant_draw_witness:
  "snd (select_restaurant
          [candidate ''A'' None, candidate ''B'' (Some 5), candidate ''C'' (Some 3)] (1 / 2))
     = Inr ((candidate ''B'' (Some 5))\<lparr>own_rating := Some 0\<rparr>)
   \<and> (\<exists>i<3. (candidate ''B'' (Some 5))\<lparr>own_rating := Some 0\<rparr>
              = fst (select_restaurant
                      [candidate ''A'' None, candidate ''B'' (Some 5), candidate ''C'' (Some 3)]
                      (1 / 2)) ! i
            \<and> 0 < snd (select_restaurant_loop
                      [candidate ''A'' None, candidate ''B'' (Some 5), candidate ''C'' (Some 3)]) ! i)
   \<and> (\<exists>i<3. snd (select_restaurant
                   [candidate ''A'' None, candidate ''B'' (Some 5), candidate ''C'' (Some 3)]
                   (1 / 2))
              = Inr (fst (select_restaurant
                      [candidate ''A'' None, candidate ''B'' (Some 5), candidate ''C'' (Some 3)]
                      (1 / 2)) ! i))
   \<and> snd (select_restaurant [candidate ''A'' None] (1 / 2)) = Inl ValueError"
proof -
  let ?ex = "[candidate ''A'' None, candidate ''B'' (Some 5), candidate ''C'' (Some 3)]"
  let ?b = "(candidate ''B'' (Some 5))\<lparr>own_rating := Some 0\<rparr>"
  have w: "snd (select_restaurant_loop ?ex) = [0, 10, 6]"
    by (simp add: candidate_def)
  have chosen: "snd (select_restaurant ?ex (1 / 2)) = Inr ?b"
    by (simp add: select_restaurant_def choices_def accumulate_def candidate_def
        bisect_right.simps)
  have zero: "snd (select_restaurant_loop [candidate ''A'' None]) = [0]"
    by (simp add: candidate_def)
  have "(\<forall>w \<in> set (snd (select_restaurant_loop ?ex)). 0 \<le> w) \<and> (0::real) \<le> 1 / 2
      \<and> (1::real) / 2 < 1 \<and> snd (select_restaurant ?ex (1 / 2)) = Inr ?b"
    unfolding w chosen by simp
  with select_restaurant_draw [of ?ex "1 / 2" ?b]
  have drawn: "\<exists>i<length ?ex. ?b = fst (select_restaurant ?ex (1 / 2)) ! i
      \<and> 0 < snd (select_restaurant_loop ?ex) ! i"
    by blast
  have "[candidate ''A'' None] \<noteq> []
      \<and> (\<forall>w \<in> set (snd (select_restaurant_loop [candidate ''A'' None])). w = 0)"
    unfolding zero by simp
  with select_restaurant_draw [of "[candidate ''A'' None]" "1 / 2"]
  have raised: "snd (select_restaurant [candidate ''A'' None] (1 / 2)) = Inl ValueError"
    by blast
  have "?ex \<noteq> [] \<and> 0 < sum_list (snd (select_restaurant_loop ?ex))"
    unfolding w by simp
  with select_restaurant_draw [of ?ex "1 / 2"]
  have member: "\<exists>i<length ?ex.
      snd (select_restaurant ?ex (1 / 2)) = Inr (fst (select_restaurant ?ex (1 / 2)) ! i)"
    by blast
  have three: "length ?ex = 3" by simp
  from drawn have positive: "\<exists>i<3. ?b = fst (select_restaurant ?ex (1 / 2)) ! i
      \<and> 0 < snd (select_restaurant_loop ?ex) ! i"
    by (simp only: three)
  from member have "\<exists>i<3.
      snd (select_restaurant ?ex (1 / 2)) = Inr (fst (select_restaurant ?ex (1 / 2)) ! i)"
    by (simp only: three)
  with chosen raised positive show ?thesis by blast
qed

text \<open>
  C4. After the draw the restaurant is claimed to be persisted, with a rating entry for the
  user, exactly when the store does not know it yet. The condition in the code is the
  other way round: for a store that does not know the chosen place \<open>A\<close>,
  \<open>search_for_restaurant\<close> returns the choice and leaves the store as it was.
\<close>

theorem bookkeeping_skips_unknown_restaurant:
  "search_for_restaurant (example_store [] []) ''u@example.org'' (example_filter 0)
       [candidate ''A'' (Some 5)] 0
     = (example_store [] [], Inr ((candidate ''A'' (Some 5))\<lparr>own_rating := Some 0\<rparr>))"
  by (simp add: search_for_restaurant_def apply_filter_def filter_rating_def candidate_def
      example_filter_def example_store_def get_bewertung_from_user_to_rest_def
      select_restaurant_def choices_def accumulate_def get_restaurant_by_id_def
      filter_rating_loop.simps bisect_right.simps)

text \<open>
  When the store already knows the place, the code tries to persist it a second time,
  which the primary key of the restaurant table rejects.
\<close>

lemma bookkeeping_known_restaurant:
  "search_for_restaurant (example_store [''A''] []) ''u@example.org'' (example_filter 0)
       [candidate ''A'' (Some 5)] 0
     = (example_store [''A''] [], Inl IntegrityError)"
  by (simp add: search_for_restaurant_def apply_filter_def filter_rating_def candidate_def
      example_filter_def example_store_def get_bewertung_from_user_to_rest_def
      select_restaurant_def choices_def accumulate_def get_restaurant_by_id_def
      create_restaurant_def filter_rating_loop.simps bisect_right.simps)




text \<open>
  C7. The weight that the loop of \<open>select_restaurant\<close> computes for a candidate is its own
  rating times 4 plus its external rating times 2, an absent rating counting as 0; a
  candidate without own rating and with external rating 5 gets the weight 10.
\<close>

theorem select_restaurant_weights:
  "snd (select_restaurant_loop rests)
     = map (\<lambda>res. (case own_rating res of None \<Rightarrow> 0 | Some a \<Rightarrow> a) * 4
                 + (case rating res of None \<Rightarrow> 0 | Some b \<Rightarrow> b) * 2) rests
   \<and> snd (select_restaurant_loop [candidate ''A'' (Some 5)]) = [10]"
proof
  show "snd (select_restaurant_loop rests)
     = map (\<lambda>res. (case own_rating res of None \<Rightarrow> 0 | Some a \<Rightarrow> a) * 4
                 + (case rating res of None \<Rightarrow> 0 | Some b \<Rightarrow> b) * 2) rests"
    by (induction rests) (auto simp: Let_def split: prod.splits option.splits)
  show "snd (select_restaurant_loop [candidate ''A'' (Some 5)]) = [10]"
    by (simp add: candidate_def)
qed

text \<open>
  C8. An update without a matching rating is claimed to be a silent no-op. In a store
  without ratings \<open>update_bewertung\<close> matches no row, leaves the store unchanged and
  returns \<open>None\<close>; \<open>update_assessment\<close> then reads the attributes of that \<open>None\<close>
  and raises \<open>AttributeError\<close>.
\<close>

theorem update_without_match_raises:
  "rows_matching (example_store [''A''] []) (example_assessment None (Some 3)) = 0
   \<and> update_bewertung (example_store [''A''] []) (example_assessment None (Some 3))
        (example_assessment (Some ''good'') (Some 5)) = (example_store [''A''] [], None)
   \<and> update_assessment (example_store [''A''] []) (example_assessment None (Some 3))
        (example_assessment (Some ''good'') (Some 5))
      = (example_store [''A''] [], Inl AttributeError)"
  by (simp add: update_assessment_def update_bewertung_def get_bewertung_from_user_to_rest_def
      example_store_def example_assessment_def rows_matching_def Let_def)

text \<open>
  C9. No stage after the search is claimed to change a field of a candidate, the own
  rating attached by the enrichment apart. The filter can let a candidate without external
  rating through (here \<open>B\<close>, skipped after the removal of \<open>A\<close>), and the draw stage
  then writes 0 into its external rating.
\<close>

theorem draw_overwrites_absent_rating:
  "filter_rating [candidate ''A'' (Some 1), candidate ''B'' None, candidate ''C'' (Some 5)] 3
     = Inr [candidate ''B'' None, candidate ''C'' (Some 5)]
   \<and> map rating [candidate ''B'' None, candidate ''C'' (Some 5)] = [None, Some 5]
   \<and> map rating (fst (select_restaurant [candidate ''B'' None, candidate ''C'' (Some 5)] (1 / 2)))
     = [Some 0, Some 5]"
  by (simp add: filter_rating_def filter_rating_loop.simps candidate_def select_restaurant_def)

text \<open>
  C9, as the code has it. The filter changes no candidate and only removes from the list:
  its result is a subsequence of its input. The enrichment changes at most the own rating
  of each candidate and keeps the list. The draw stage keeps the list and replaces an
  absent own rating and an absent external rating by 0, changing nothing else; an external
  rating that is present stays as it is.
\<close>

theorem later_stages_frame:
  "(filter_rating rests r = Inr out \<longrightarrow> subseq out rests)
   \<and> list_all2 (\<lambda>a b. \<exists>x. b = a\<lparr>own_rating := x\<rparr>) rests (fill_user_rating d rests user)
   \<and> fst (select_restaurant rests u)
     = map (\<lambda>res. res\<lparr>own_rating := Some (case own_rating res of None \<Rightarrow> 0 | Some a \<Rightarrow> a),
                      rating := Some (case rating res of None \<Rightarrow> 0 | Some b \<Rightarrow> b)\<rparr>) rests
   \<and> (\<forall>i<length rests. rating (rests ! i) \<noteq> None
        \<longrightarrow> rating (fst (select_restaurant rests u) ! i) = rating (rests ! i))"
proof (intro conjI impI allI)
  assume "filter_rating rests r = Inr out"
  then show "subseq out rests"
    unfolding filter_rating_def by (rule filter_rating_loop_subseq)
next
  show "list_all2 (\<lambda>a b. \<exists>x. b = a\<lparr>own_rating := x\<rparr>) rests (fill_user_rating d rests user)"
    by (rule fill_user_rating_frame)
next
  show "fst (select_restaurant rests u)
     = map (\<lambda>res. res\<lparr>own_rating := Some (case own_rating res of None \<Rightarrow> 0 | Some a \<Rightarrow> a),
                      rating := Some (case rating res of None \<Rightarrow> 0 | Some b \<Rightarrow> b)\<rparr>) rests"
    by (simp add: select_restaurant_unfold select_restaurant_loop_rests)
next
  fix i
  assume "i < length rests" "rating (rests ! i) \<noteq> None"
  then show "rating (fst (select_restaurant rests u) ! i) = rating (rests ! i)"
    by (auto simp: select_restaurant_unfold select_restaurant_loop_rests)
qed

theorem later_stages_frame_witness:
  "subseq [candidate ''B'' None, candidate ''C'' (Some 5)]
      [candidate ''A'' (Some 1), candidate ''B'' None, candidate ''C'' (Some 5)]
   \<and> rating (fst (select_restaurant [candidate ''B'' None, candidate ''C'' (Some 5)] (1 / 2)) ! 1)
      = Some 5
   \<and> place_id (fst (select_restaurant [candidate ''B'' None, candidate ''C'' (Some 5)] (1 / 2)) ! 0)
      = ''B''"
proof -
  let ?ex = "[candidate ''A'' (Some 1), candidate ''B'' None, candidate ''C'' (Some 5)]"
  let ?out = "[candidate ''B'' None, candidate ''C'' (Some 5)]"
  have filtered: "filter_rating ?ex 3 = Inr ?out"
    by (simp add: filter_rating_def filter_rating_loop.simps candidate_def)
  with later_stages_frame [of ?ex 3 ?out]
  have sub: "subseq ?out ?ex" by blast
  have present: "(1::nat) < length ?out \<and> rating (?out ! 1) \<noteq> None"
    by (simp add: candidate_def)
  with later_stages_frame [of ?out _ _ _ _ "1 / 2"]
  have kept: "rating (fst (select_restaurant ?out (1 / 2)) ! 1) = rating (?out ! 1)"
    by blast
  have "rating (?out ! 1) = Some 5" by (simp add: candidate_def)
  with kept have r: "rating (fst (select_restaurant ?out (1 / 2)) ! 1) = Some 5" by simp
  from later_stages_frame [of ?out _ _ _ _ "1 / 2"]
  have "fst (select_restaurant ?out (1 / 2))
     = map (\<lambda>res. res\<lparr>own_rating := Some (case own_rating res of None \<Rightarrow> 0 | Some a \<Rightarrow> a),
                      rating := Some (case rating res of None \<Rightarrow> 0 | Some b \<Rightarrow> b)\<rparr>) ?out"
    by blast
  then have "place_id (fst (select_restaurant ?out (1 / 2)) ! 0) = ''B''"
    by (simp add: candidate_def)
  with sub r show ?thesis by blast
qed

text \<open>
  C10. With no candidate left \<open>select_restaurant\<close> raises: \<open>random.choices\<close> reads the
  last of no running sums, an \<open>IndexError\<close>. \<open>search_for_restaurant\<close> hands it on
  whenever the filter leaves nothing, and the store is not touched.
\<close>

theorem select_restaurant_empty_raises:
  "select_restaurant [] u = ([], Inl IndexError)
   \<and> (apply_filter google_rests user_f = Inr []
        \<longrightarrow> search_for_restaurant d user user_f google_rests u = (d, Inl IndexError))"
  by (simp add: search_for_restaurant_def select_restaurant_def choices_def accumulate_def)

theorem select_restaurant_empty_raises_witness:
  "apply_filter [candidate ''A'' (Some 1)] (example_filter 3) = Inr []
   \<and> search_for_restaurant (example_store [] []) ''u@example.org'' (example_filter 3)
        [candidate ''A'' (Some 1)] (1 / 2)
      = (example_store [] [], Inl IndexError)"
proof -
  have empty: "apply_filter [candidate ''A'' (Some 1)] (example_filter 3) = Inr []"
    by (simp add: apply_filter_def filter_rating_def example_filter_def candidate_def
        filter_rating_loop.simps)
  with select_restaurant_empty_raises
         [of "1 / 2" "[candidate ''A'' (Some 1)]" "example_filter 3" "example_store [] []"
             "''u@example.org''"]
  show ?thesis by simp
qed

end
